theory Spec2Isabelle
  imports Complex_Main "HOL-Library.Multiset"
begin

section \<open>JavaScript numbers\<close>

text \<open>
  The coordinates, the speed and the frame times of the tracker are JavaScript numbers:
  IEEE 754 binary64 values. A number is \<open>NaN\<close>, an infinity, or a finite value, kept as the
  real it denotes. Every finite operation computes the exact real result and rounds it to
  the nearest double, ties to the even significand, and to an infinity when the rounded
  magnitude reaches \<open>2^1024\<close>; a literal of the source is rounded the same way.
  \<open>NaN\<close> poisons every operation and fails every comparison, and the infinities follow
  the IEEE rules (\<open>Infinity - Infinity\<close>, \<open>Infinity * 0\<close>, \<open>0 / 0\<close> and
  \<open>Infinity / Infinity\<close> are \<open>NaN\<close>; a finite value divided by an infinity is \<open>0\<close>).

  The sign of zero is not kept. In the animation loop it could only show in a division by
  zero, and neither divisor there can be zero: \<open>1000\<close>, and a distance that has just
  failed \<open>dist < 0.005\<close>. \<open>Math.sqrt\<close> is taken to round correctly, as the IEEE operation
  that the engines use does.
\<close>

datatype number = Fin real | PosInf | NegInf | NaN

text \<open>Rounding to the nearest integer, ties to even.\<close>

definition roundHalfEven :: "real \<Rightarrow> int" where
  "roundHalfEven x =
     (let f = \<lfloor>x\<rfloor>
      in if x - of_int f < 1 / 2 then f
         else if 1 / 2 < x - of_int f then f + 1
         else if even f then f else f + 1)"

text \<open>
  The exponent of the last bit of the significand of a double near \<open>x\<close>: 52 below the
  exponent of \<open>x\<close>, and \<open>-1074\<close> for the subnormal numbers.
\<close>

definition quantum :: "real \<Rightarrow> int" where
  "quantum x = max (\<lfloor>log 2 \<bar>x\<bar>\<rfloor> - 52) (- 1074)"

definition roundAt :: "int \<Rightarrow> real \<Rightarrow> number" where
  "roundAt q x =
     (let r = of_int (roundHalfEven (x / 2 powi q)) * 2 powi q
      in if 2 ^ 1024 \<le> \<bar>r\<bar> then (if x < 0 then NegInf else PosInf) else Fin r)"

definition roundToDouble :: "real \<Rightarrow> number" where
  "roundToDouble x = (if x = 0 then Fin 0 else roundAt (quantum x) x)"

fun isNaN :: "number \<Rightarrow> bool" where
  "isNaN NaN = True"
| "isNaN _ = False"

fun isFinite :: "number \<Rightarrow> bool" where
  "isFinite (Fin _) = True"
| "isFinite _ = False"

fun is_neg :: "number \<Rightarrow> bool" where
  "is_neg (Fin x) = (x < 0)"
| "is_neg NegInf = True"
| "is_neg _ = False"

fun num_neg :: "number \<Rightarrow> number" where
  "num_neg (Fin x) = Fin (- x)"
| "num_neg PosInf = NegInf"
| "num_neg NegInf = PosInf"
| "num_neg NaN = NaN"

fun num_add :: "number \<Rightarrow> number \<Rightarrow> number" where
  "num_add NaN _ = NaN"
| "num_add _ NaN = NaN"
| "num_add (Fin a) (Fin b) = roundToDouble (a + b)"
| "num_add PosInf NegInf = NaN"
| "num_add NegInf PosInf = NaN"
| "num_add PosInf _ = PosInf"
| "num_add _ PosInf = PosInf"
| "num_add NegInf _ = NegInf"
| "num_add _ NegInf = NegInf"

definition num_sub :: "number \<Rightarrow> number \<Rightarrow> number" where
  "num_sub a b = num_add a (num_neg b)"

fun num_mul :: "number \<Rightarrow> number \<Rightarrow> number" where
  "num_mul NaN _ = NaN"
| "num_mul _ NaN = NaN"
| "num_mul (Fin a) (Fin b) = roundToDouble (a * b)"
| "num_mul a b =
     (if a = Fin 0 \<or> b = Fin 0 then NaN
      else if is_neg a \<noteq> is_neg b then NegInf else PosInf)"

fun num_div :: "number \<Rightarrow> number \<Rightarrow> number" where
  "num_div NaN _ = NaN"
| "num_div _ NaN = NaN"
| "num_div (Fin a) (Fin b) =
     (if b = 0 then (if a = 0 then NaN else if a < 0 then NegInf else PosInf)
      else roundToDouble (a / b))"
| "num_div (Fin a) _ = Fin 0"
| "num_div a (Fin b) = (if is_neg a \<noteq> is_neg (Fin b) then NegInf else PosInf)"
| "num_div _ _ = NaN"

fun num_sqrt :: "number \<Rightarrow> number" where
  "num_sqrt (Fin x) = (if x < 0 then NaN else roundToDouble (sqrt x))"
| "num_sqrt PosInf = PosInf"
| "num_sqrt _ = NaN"

fun num_le :: "number \<Rightarrow> number \<Rightarrow> bool" where
  "num_le NaN _ = False"
| "num_le _ NaN = False"
| "num_le (Fin a) (Fin b) = (a \<le> b)"
| "num_le NegInf _ = True"
| "num_le _ PosInf = True"
| "num_le _ _ = False"

fun num_lt :: "number \<Rightarrow> number \<Rightarrow> bool" where
  "num_lt NaN _ = False"
| "num_lt _ NaN = False"
| "num_lt (Fin a) (Fin b) = (a < b)"
| "num_lt NegInf NegInf = False"
| "num_lt PosInf _ = False"
| "num_lt NegInf _ = True"
| "num_lt (Fin a) PosInf = True"
| "num_lt (Fin a) NegInf = False"

text \<open>
  A number of the state is a double when rounding leaves it as it is: the finite values of
  a state are read from JSON, taken from the source or computed, and all three round.
\<close>

fun isDouble :: "number \<Rightarrow> bool" where
  "isDouble (Fin x) = (roundToDouble x = Fin x)"
| "isDouble _ = True"

section \<open>The data model (types.ts, constants.ts)\<close>

record Coordinates =
  lat :: number
  lng :: number

text \<open>The field \<open>id\<close> of a stop is \<open>stop_id\<close> here (\<open>id\<close> is the identity of HOL).\<close>

record Stop =
  stop_id :: string
  name :: string
  present :: string
  coordinates :: Coordinates
  isDelivered :: bool
  isNext :: bool

record SantaState =
  currentPosition :: Coordinates
  targetStopId :: "string option"
  isPlaying :: bool
  speed :: number
  isDelivering :: bool

datatype GameStatus = PLANNING | DELIVERING | FINISHED

definition NORTH_POLE :: Coordinates where
  "NORTH_POLE = \<lparr>lat = Fin 84, lng = Fin (- 40)\<rparr>"

text \<open>
  A string or \<open>null\<close> used as a condition: \<open>null\<close> and the empty string are falsy.
\<close>

fun truthy :: "string option \<Rightarrow> bool" where
  "truthy None = False"
| "truthy (Some s) = (s \<noteq> [])"

section \<open>The state of the App component\<close>

text \<open>
  The status line shows one of a fixed set of message templates; a message is the template
  and the text spliced into it. In source order of first use: the initial message, the two
  outcomes of adding a stop, the two messages of the optimisation, take-off, reset,
  en route, finished, the delivery in progress, the generated caption, skip, pause and
  arrival.
\<close>

datatype message =
    MsgWaitingAtNorthPole
  | MsgAdded string
  | MsgCouldNotFind string
  | MsgConsultingElves
  | MsgRouteOptimized
  | MsgTakingOff
  | MsgBackToDrawingBoard
  | MsgEnRoute string
  | MsgAllDelivered
  | MsgCapturing string
  | MsgCaption string
  | MsgSkipping
  | MsgPaused
  | MsgArrived string

text \<open>
  Calls that leave the component are recorded in a log, in the order they are made: the
  three sounds of audioService and the request for the next animation frame.
\<close>

datatype effect = PlaySparkleSound | PlayHoHoHo | PlayArrivalChime | RequestAnimationFrame

text \<open>
  \<open>stateRef.current\<close>: the snapshot of the render state that the animation loop reads.
  It is written by an effect after each render, so between a state update and the next
  render it still holds the values of the previous render.
\<close>

record StateRef =
  ref_santa :: SantaState
  ref_stops :: "Stop list"
  ref_status :: GameStatus
  ref_pendingDeliveryStop :: "Stop option"

record App =
  stops :: "Stop list"
  santa :: SantaState
  status :: GameStatus
  loading :: bool
  currentMessage :: message
  pendingDeliveryStop :: "Stop option"
  isGeneratingImage :: bool
  deliveryImage :: "string option"
  completedDeliveryStop :: "Stop option"
  locationInput :: string
  presentInput :: string
  lastTimeRef :: "number option"
  stateRef :: StateRef
  lastArrivalStopIdRef :: "string option"
  effects :: "effect list"

definition initialSanta :: SantaState where
  "initialSanta =
     \<lparr>currentPosition = NORTH_POLE, targetStopId = None, isPlaying = False,
      speed = Fin 1, isDelivering = False\<rparr>"

definition initialApp :: App where
  "initialApp =
     \<lparr>stops = [], santa = initialSanta, status = PLANNING, loading = False,
      currentMessage = MsgWaitingAtNorthPole, pendingDeliveryStop = None,
      isGeneratingImage = False, deliveryImage = None, completedDeliveryStop = None,
      locationInput = [], presentInput = [], lastTimeRef = None,
      stateRef = \<lparr>ref_santa = initialSanta, ref_stops = [], ref_status = PLANNING,
                  ref_pendingDeliveryStop = None\<rparr>,
      lastArrivalStopIdRef = None, effects = []\<rparr>"

text \<open>The effect that keeps \<open>stateRef\<close> in sync, run after a render.\<close>

definition syncStateRef :: "App \<Rightarrow> App" where
  "syncStateRef s =
     s\<lparr>stateRef := \<lparr>ref_santa = santa s, ref_stops = stops s, ref_status = status s,
                     ref_pendingDeliveryStop = pendingDeliveryStop s\<rparr>\<rparr>"

definition emit :: "effect \<Rightarrow> App \<Rightarrow> App" where
  "emit e s = s\<lparr>effects := effects s @ [e]\<rparr>"

section \<open>The AI client (services/geminiService.ts)\<close>

text \<open>
  The remote model is outside the program: what it answers is an input of the functions
  below. A value of the parsed JSON answer is kept as far as the code looks at it.
\<close>

datatype jsvalue =
  JUndefined | JNull | JBool bool | JNumber number | JString string | JObject

fun js_truthy :: "jsvalue \<Rightarrow> bool" where
  "js_truthy JUndefined = False"
| "js_truthy JNull = False"
| "js_truthy (JBool b) = b"
| "js_truthy (JNumber n) = (n \<noteq> NaN \<and> n \<noteq> Fin 0)"
| "js_truthy (JString s) = (s \<noteq> [])"
| "js_truthy JObject = True"

text \<open>\<open>typeof v === 'number' && Number.isFinite(v)\<close>\<close>

fun finiteNumber :: "jsvalue \<Rightarrow> bool" where
  "finiteNumber (JNumber n) = isFinite n"
| "finiteNumber _ = False"

fun numberOf :: "jsvalue \<Rightarrow> number" where
  "numberOf (JNumber n) = n"
| "numberOf _ = NaN"

text \<open>
  The answer to the geocoding request: the call or \<open>JSON.parse\<close> throws, or \<open>data\<close> is
  an object whose fields \<open>found\<close>, \<open>lat\<close> and \<open>lng\<close> hold any value (\<open>JUndefined\<close> when
  missing). \<open>formattedName\<close> is not inspected by the code and is passed on as it is.
\<close>

record GeocodeData =
  data_found :: jsvalue
  data_lat :: jsvalue
  data_lng :: jsvalue
  data_formattedName :: string

datatype geocode_response = GeocodeThrows | GeocodeAnswer GeocodeData

record GeocodeResult =
  result_lat :: number
  result_lng :: number
  formattedName :: string

fun geocodeLocation :: "geocode_response \<Rightarrow> GeocodeResult option" where
  "geocodeLocation GeocodeThrows = None"
| "geocodeLocation (GeocodeAnswer d) =
     (if js_truthy (data_found d) \<and> finiteNumber (data_lat d) \<and> finiteNumber (data_lng d)
      then Some \<lparr>result_lat = numberOf (data_lat d), result_lng = numberOf (data_lng d),
                 formattedName = data_formattedName d\<rparr>
      else None)"

text \<open>
  The answer to the optimisation request: the call or the parse throws, or
  \<open>data.optimizedOrder\<close> is missing (\<open>None\<close>) or, as the response schema asks, an
  array of strings. An array is truthy even when empty, so \<open>data.optimizedOrder || ...\<close>
  falls back only when the field is missing.
\<close>

datatype optimize_response = OptimizeThrows | OptimizeAnswer "string list option"

fun optimizeRoute :: "Stop list \<Rightarrow> optimize_response \<Rightarrow> string list" where
  "optimizeRoute sts r =
     (if length sts \<le> 1 then map stop_id sts
      else case r of
          OptimizeThrows \<Rightarrow> map stop_id sts
        | OptimizeAnswer None \<Rightarrow> map stop_id sts
        | OptimizeAnswer (Some ids) \<Rightarrow> ids)"

section \<open>The handlers of the App component\<close>

text \<open>
  \<open>handleAddStop\<close>, with the answer of the geocoder and the identifier drawn by
  \<open>Math.random\<close> as inputs. Between \<open>setLoading(true)\<close> and the branch the handler awaits
  the geocoder.
\<close>

definition handleAddStop :: "geocode_response \<Rightarrow> string \<Rightarrow> App \<Rightarrow> App" where
  "handleAddStop response newId s =
     (if locationInput s = [] \<or> presentInput s = [] then s
      else
        let s1 = s\<lparr>loading := True\<rparr>;
            s2 = (case geocodeLocation response of
                Some result \<Rightarrow>
                  let newStop = \<lparr>stop_id = newId, name = formattedName result,
                                   present = presentInput s,
                                   coordinates = \<lparr>lat = result_lat result, lng = result_lng result\<rparr>,
                                   isDelivered = False, isNext = False\<rparr>
                  in s1\<lparr>stops := stops s1 @ [newStop], locationInput := [],
                         presentInput := [], currentMessage := MsgAdded (formattedName result)\<rparr>
              | None \<Rightarrow> s1\<lparr>currentMessage := MsgCouldNotFind (locationInput s)\<rparr>)
        in s2\<lparr>loading := False\<rparr>)"

text \<open>
  The reorder step of \<open>handleOptimize\<close>:
  \<open>optimizedIds.map(id => stops.find(s => s.id === id)).filter(s => s !== undefined)\<close>.
\<close>

definition reorderStops :: "Stop list \<Rightarrow> string list \<Rightarrow> Stop list" where
  "reorderStops sts optimizedIds =
     map the (filter (\<lambda>r. r \<noteq> None)
       (map (\<lambda>i. find (\<lambda>st. stop_id st = i) sts) optimizedIds))"

definition handleOptimize :: "optimize_response \<Rightarrow> App \<Rightarrow> App" where
  "handleOptimize response s =
     (let s1 = s\<lparr>loading := True, currentMessage := MsgConsultingElves\<rparr>;
          optimizedIds = optimizeRoute (stops s) response;
          reorderedStops = reorderStops (stops s) optimizedIds
      in s1\<lparr>stops := reorderedStops, loading := False, currentMessage := MsgRouteOptimized\<rparr>)"

text \<open>
  \<open>handleStartDelivery\<close>. Its last statement asks the browser for the speech voices and
  discards the answer; it changes nothing here and is left out.
\<close>

definition handleStartDelivery :: "App \<Rightarrow> App" where
  "handleStartDelivery s =
     (if length (stops s) = 0 then s
      else
        s\<lparr>status := DELIVERING,
          lastArrivalStopIdRef := None,
          santa := (santa s)\<lparr>isPlaying := True, targetStopId := Some (stop_id (stops s ! 0)),
                             isDelivering := False\<rparr>,
          currentMessage := MsgTakingOff,
          pendingDeliveryStop := None,
          deliveryImage := None\<rparr>)"

text \<open>
  The Start button is rendered only while planning, and is disabled when there is no stop
  or a request is loading; a click reaches the handler only then.
\<close>

definition clickStartDelivery :: "App \<Rightarrow> App" where
  "clickStartDelivery s =
     (if status s = PLANNING \<and> \<not> (length (stops s) = 0 \<or> loading s)
      then handleStartDelivery s else s)"

definition handleReset :: "App \<Rightarrow> App" where
  "handleReset s =
     s\<lparr>status := PLANNING,
       stops := map (\<lambda>st. st\<lparr>isDelivered := False, isNext := False\<rparr>) (stops s),
       santa := \<lparr>currentPosition = NORTH_POLE, targetStopId = None, isPlaying = False,
                 speed = Fin 1, isDelivering = False\<rparr>,
       pendingDeliveryStop := None,
       deliveryImage := None,
       lastArrivalStopIdRef := None,
       currentMessage := MsgBackToDrawingBoard\<rparr>"

text \<open>\<open>Array.prototype.findIndex\<close>: the first index whose element passes, or \<open>-1\<close>.\<close>

fun findIndex :: "('a \<Rightarrow> bool) \<Rightarrow> 'a list \<Rightarrow> int" where
  "findIndex P [] = - 1"
| "findIndex P (x # xs) =
     (if P x then 0 else (let r = findIndex P xs in if r < 0 then - 1 else r + 1))"

text \<open>
  \<open>proceedToNextStop\<close> reads \<open>stops\<close> from the closure of the render it was created in;
  that list is its first argument. Called from a click it is the list of the state; called
  after the three seconds of the fallback path it is the list of the render in which the
  delivery was confirmed.
\<close>

definition proceedToNextStop :: "Stop list \<Rightarrow> string \<Rightarrow> App \<Rightarrow> App" where
  "proceedToNextStop sts currentStopId s =
     (let currentIndex = findIndex (\<lambda>st. stop_id st = currentStopId) sts
      in if currentIndex < int (length sts) - 1 then
           let nextStop = sts ! nat (currentIndex + 1)
           in s\<lparr>lastArrivalStopIdRef := None,
                santa := (santa s)\<lparr>isPlaying := True, targetStopId := Some (stop_id nextStop),
                                   isDelivering := False\<rparr>,
                currentMessage := MsgEnRoute (name nextStop)\<rparr>
         else
           emit PlayHoHoHo
             (s\<lparr>status := FINISHED,
                currentMessage := MsgAllDelivered,
                santa := (santa s)\<lparr>isDelivering := False\<rparr>\<rparr>))"

text \<open>
  \<open>executeDeliverySequence\<close> runs in four pieces, one per \<open>await\<close>: up to the request
  for the image; from the image (a data URI or \<open>null\<close>) to the request for the caption;
  from the caption on; and, only when there was no image, the advance after three seconds.
  Other handlers and frames may run between the pieces.
\<close>

definition executeDeliverySequence :: "Stop \<Rightarrow> App \<Rightarrow> App" where
  "executeDeliverySequence stop s =
     (let s1 = s\<lparr>santa := (santa s)\<lparr>isDelivering := True\<rparr>,
                 isGeneratingImage := True,
                 currentMessage := MsgCapturing (name stop)\<rparr>;
          s2 = emit PlaySparkleSound s1
      in s2\<lparr>stops := map (\<lambda>st. if stop_id st = stop_id stop then st\<lparr>isDelivered := True\<rparr> else st)
                        (stops s2)\<rparr>)"

definition deliveryImageReady :: "Stop \<Rightarrow> string option \<Rightarrow> App \<Rightarrow> App" where
  "deliveryImageReady stop imageUrl s =
     (let s1 = s\<lparr>isGeneratingImage := False\<rparr>
      in if truthy imageUrl then
           emit PlayHoHoHo (s1\<lparr>deliveryImage := imageUrl, completedDeliveryStop := Some stop\<rparr>)
         else emit PlayHoHoHo s1)"

definition deliveryCaptionReady :: "string \<Rightarrow> App \<Rightarrow> App" where
  "deliveryCaptionReady msg s = s\<lparr>currentMessage := MsgCaption msg\<rparr>"

definition deliveryFallbackElapsed :: "Stop list \<Rightarrow> Stop \<Rightarrow> App \<Rightarrow> App" where
  "deliveryFallbackElapsed sts stop s = proceedToNextStop sts (stop_id stop) s"

definition handleCloseDeliveryModal :: "App \<Rightarrow> App" where
  "handleCloseDeliveryModal s =
     (let s1 = s\<lparr>deliveryImage := None, completedDeliveryStop := None\<rparr>
      in if truthy (targetStopId (santa s))
         then proceedToNextStop (stops s) (the (targetStopId (santa s))) s1
         else s1)"

definition handleConfirmDelivery :: "App \<Rightarrow> App" where
  "handleConfirmDelivery s =
     (case pendingDeliveryStop s of
        Some stop \<Rightarrow> executeDeliverySequence stop (s\<lparr>pendingDeliveryStop := None\<rparr>)
      | None \<Rightarrow> s)"

definition handleSkipStop :: "string \<Rightarrow> App \<Rightarrow> App" where
  "handleSkipStop stopId s =
     (proceedToNextStop (stops s) stopId (s\<lparr>pendingDeliveryStop := None\<rparr>))
       \<lparr>currentMessage := MsgSkipping\<rparr>"

definition handleCancelDelivery :: "App \<Rightarrow> App" where
  "handleCancelDelivery s = s\<lparr>pendingDeliveryStop := None, currentMessage := MsgPaused\<rparr>"

section \<open>The animation loop\<close>

text \<open>
  What every path of \<open>animate\<close> but the early \<open>return\<close> ends with:
  \<open>lastTimeRef.current = time; requestRef.current = requestAnimationFrame(animate)\<close>.
\<close>

definition nextFrame :: "number \<Rightarrow> App \<Rightarrow> App" where
  "nextFrame time s = emit RequestAnimationFrame (s\<lparr>lastTimeRef := Some time\<rparr>)"

text \<open>The arrival branch, entered when the guard does not hold the target yet.\<close>

definition arrive :: "Stop \<Rightarrow> App \<Rightarrow> App" where
  "arrive targetStop s =
     (let s1 = s\<lparr>lastArrivalStopIdRef := Some (stop_id targetStop)\<rparr>;
          s2 = s1\<lparr>santa := (santa s1)\<lparr>currentPosition := coordinates targetStop,
                                      isPlaying := False\<rparr>\<rparr>;
          s3 = emit PlayArrivalChime s2
      in s3\<lparr>pendingDeliveryStop := Some targetStop,
            currentMessage := MsgArrived (name targetStop)\<rparr>)"

text \<open>The linear move: the updater is applied to the state, not to the snapshot.\<close>

definition moveBy :: "number \<Rightarrow> number \<Rightarrow> number \<Rightarrow> App \<Rightarrow> App" where
  "moveBy dLat dLng ratio s =
     s\<lparr>santa := (santa s)\<lparr>currentPosition :=
          \<lparr>lat = num_add (lat (currentPosition (santa s))) (num_mul dLat ratio),
           lng = num_add (lng (currentPosition (santa s))) (num_mul dLng ratio)\<rparr>\<rparr>\<rparr>"

definition distanceTo :: "Coordinates \<Rightarrow> Coordinates \<Rightarrow> number" where
  "distanceTo target current =
     (let dLat = num_sub (lat target) (lat current);
          dLng = num_sub (lng target) (lng current)
      in num_sqrt (num_add (num_mul dLat dLat) (num_mul dLng dLng)))"

text \<open>The literal \<open>0.005\<close> of the arrival threshold.\<close>

definition arrivalEpsilon :: number where
  "arrivalEpsilon = roundToDouble (5 / 1000)"

definition stepSize :: "number \<Rightarrow> number \<Rightarrow> number" where
  "stepSize speed' deltaTime =
     (let degreesPerSecond = num_mul (Fin 12) speed'
      in num_mul degreesPerSecond (num_div deltaTime (Fin 1000)))"

definition animate :: "number \<Rightarrow> App \<Rightarrow> App" where
  "animate time s =
     (case lastTimeRef s of
        None \<Rightarrow> nextFrame time s
      | Some lastTime \<Rightarrow>
          let deltaTime = num_sub time lastTime;
              currentSanta = ref_santa (stateRef s);
              currentStops = ref_stops (stateRef s)
          in if isPlaying currentSanta \<and> truthy (targetStopId currentSanta) then
               (case find (\<lambda>st. Some (stop_id st) = targetStopId currentSanta) currentStops of
                  None \<Rightarrow> nextFrame time s
                | Some targetStop \<Rightarrow>
                    if \<not> isNaN (lat (coordinates targetStop)) \<and>
                       \<not> isNaN (lng (coordinates targetStop)) then
                      let dLat = num_sub (lat (coordinates targetStop))
                                   (lat (currentPosition currentSanta));
                          dLng = num_sub (lng (coordinates targetStop))
                                   (lng (currentPosition currentSanta));
                          dist = distanceTo (coordinates targetStop) (currentPosition currentSanta)
                      in if isNaN dist then s
                         else
                           let step = stepSize (speed currentSanta) deltaTime
                           in if num_le dist step \<or> num_lt dist arrivalEpsilon then
                                (if lastArrivalStopIdRef s \<noteq> Some (stop_id targetStop)
                                 then nextFrame time (arrive targetStop s)
                                 else nextFrame time s)
                              else
                                let ratio = num_div step dist
                                in if isFinite ratio
                                   then nextFrame time (moveBy dLat dLng ratio s)
                                   else nextFrame time s
                    else nextFrame time s)
             else nextFrame time s)"

section \<open>Runs of the component\<close>

text \<open>
  One event is one handler run to its next \<open>await\<close>, one continuation of an awaited
  request, one animation frame, or one render (which refreshes \<open>stateRef\<close>). The handlers
  are taken as they are: what the interface shows in a state restricts the events
  further. \<open>handleAddStop\<close> and \<open>handleOptimize\<close> are one event each, together with the
  answer they await.
\<close>

datatype event =
    SetLocationInput string
  | SetPresentInput string
  | AddStop geocode_response string
  | Optimize optimize_response
  | StartDelivery
  | Reset
  | ConfirmDelivery
  | ExecuteDelivery Stop
  | ImageReady Stop "string option"
  | CaptionReady string
  | FallbackElapsed "Stop list" Stop
  | CloseDeliveryModal
  | SkipStop string
  | CancelDelivery
  | Frame number
  | Render

fun step :: "event \<Rightarrow> App \<Rightarrow> App" where
  "step (SetLocationInput v) s = s\<lparr>locationInput := v\<rparr>"
| "step (SetPresentInput v) s = s\<lparr>presentInput := v\<rparr>"
| "step (AddStop response newId) s = handleAddStop response newId s"
| "step (Optimize response) s = handleOptimize response s"
| "step StartDelivery s = handleStartDelivery s"
| "step Reset s = handleReset s"
| "step ConfirmDelivery s = handleConfirmDelivery s"
| "step (ExecuteDelivery stop) s = executeDeliverySequence stop s"
| "step (ImageReady stop imageUrl) s = deliveryImageReady stop imageUrl s"
| "step (CaptionReady msg) s = deliveryCaptionReady msg s"
| "step (FallbackElapsed sts stop) s = deliveryFallbackElapsed sts stop s"
| "step CloseDeliveryModal s = handleCloseDeliveryModal s"
| "step (SkipStop stopId) s = handleSkipStop stopId s"
| "step CancelDelivery s = handleCancelDelivery s"
| "step (Frame time) s = animate time s"
| "step Render s = syncStateRef s"

fun run :: "event list \<Rightarrow> App \<Rightarrow> App" where
  "run [] s = s"
| "run (e # es) s = run es (step e s)"

section \<open>Notions used by the properties\<close>

text \<open>How often the arrival chime has been played so far.\<close>

definition chimes :: "App \<Rightarrow> nat" where
  "chimes s = count_list (effects s) PlayArrivalChime"




text \<open>
  The events of a delivery run: all but the reset and the two planning operations that
  rebuild the list of stops.
\<close>

fun deliveryEvent :: "event \<Rightarrow> bool" where
  "deliveryEvent Reset = False"
| "deliveryEvent (AddStop _ _) = False"
| "deliveryEvent (Optimize _) = False"
| "deliveryEvent _ = True"

text \<open>Each stop of the second list is the stop at the same place of the first, or that
  stop marked delivered.\<close>

definition flagsKept :: "Stop list \<Rightarrow> Stop list \<Rightarrow> bool" where
  "flagsKept old new = list_all2 (\<lambda>a b. b = a \<or> b = a\<lparr>isDelivered := True\<rparr>) old new"

definition finiteStop :: "Stop \<Rightarrow> bool" where
  "finiteStop st = (isFinite (lat (coordinates st)) \<and> isFinite (lng (coordinates st)))"

text \<open>A number that is not negative: zero or more, or the positive infinity.\<close>

fun nonNegative :: "number \<Rightarrow> bool" where
  "nonNegative (Fin r) = (0 \<le> r)"
| "nonNegative PosInf = True"
| "nonNegative _ = False"

text \<open>The target of Santa, when there is one, is the id of a stop of the registry.\<close>

definition targetInRegistry :: "App \<Rightarrow> bool" where
  "targetInRegistry s =
     (case targetStopId (santa s) of
        None \<Rightarrow> True
      | Some t \<Rightarrow> t \<in> set (map stop_id (stops s)))"

section \<open>Example runs\<close>

text \<open>
  Antwerp and Oslo, to the nearest degree; the user adds them, starts the run, and the
  first frame records its time. From the North Pole (84, -40) to Antwerp (51, 4) the
  differences are -33 and 44 and the distance is 55; five seconds later one frame covers
  sixty degrees. Every operation on these numbers is exact in binary64.
\<close>

definition antwerpAnswer :: geocode_response where
  "antwerpAnswer = GeocodeAnswer \<lparr>data_found = JBool True, data_lat = JNumber (Fin 51),
     data_lng = JNumber (Fin 4), data_formattedName = ''Antwerp''\<rparr>"

definition osloAnswer :: geocode_response where
  "osloAnswer = GeocodeAnswer \<lparr>data_found = JBool True, data_lat = JNumber (Fin 60),
     data_lng = JNumber (Fin 10), data_formattedName = ''Oslo''\<rparr>"

definition stopAntwerp :: Stop where
  "stopAntwerp = \<lparr>stop_id = ''a'', name = ''Antwerp'', present = ''Bear'',
     coordinates = \<lparr>lat = Fin 51, lng = Fin 4\<rparr>,
     isDelivered = False, isNext = False\<rparr>"

definition stopOslo :: Stop where
  "stopOslo = \<lparr>stop_id = ''b'', name = ''Oslo'', present = ''Sled'',
     coordinates = \<lparr>lat = Fin 60, lng = Fin 10\<rparr>,
     isDelivered = False, isNext = False\<rparr>"

definition planAntwerp :: "event list" where
  "planAntwerp =
     [SetLocationInput ''Antwerp'', SetPresentInput ''Bear'', AddStop antwerpAnswer ''a'']"

definition planAntwerpOslo :: "event list" where
  "planAntwerpOslo =
     planAntwerp @ [SetLocationInput ''Oslo'', SetPresentInput ''Sled'', AddStop osloAnswer ''b'']"

definition flightToAntwerp :: "event list" where
  "flightToAntwerp = planAntwerp @ [StartDelivery, Render, Frame (Fin 0)]"

text \<open>
  The user confirms the delivery in Antwerp, no image comes back, and within the three
  seconds of the fallback the user resets and starts again.
\<close>

definition restartDuringFallback :: "event list" where
  "restartDuringFallback =
     flightToAntwerp @ [Frame (Fin 5000), Render, ConfirmDelivery, ImageReady stopAntwerp None,
       CaptionReady ''Santa has arrived at Antwerp!'', Reset, StartDelivery]"

text \<open>
  With Antwerp and Oslo planned, the user confirms the delivery in Antwerp and no image
  comes back. Within the three seconds of the fallback the user resets and optimises, and
  the answer names Antwerp alone. Then the fallback advance runs, with the two stops of
  the render in which the delivery was confirmed.
\<close>

definition optimizeDuringFallback :: "event list" where
  "optimizeDuringFallback =
     planAntwerpOslo @ [StartDelivery, Render, Frame (Fin 0), Frame (Fin 5000), Render,
       ConfirmDelivery, ImageReady stopAntwerp None,
       CaptionReady ''Santa has arrived at Antwerp!'', Reset,
       Optimize (OptimizeAnswer (Some [''a''])), Render,
       FallbackElapsed [stopAntwerp, stopOslo] stopAntwerp]"

text \<open>The user skips Antwerp, the only stop: the run is finished.\<close>

definition skippedAntwerp :: "event list" where
  "skippedAntwerp = flightToAntwerp @ [Frame (Fin 5000), Render, SkipStop ''a'']"


text \<open>A delivery in Antwerp that ends with the fallback advance.\<close>

definition deliveryInAntwerp :: "event list" where
  "deliveryInAntwerp =
     [Frame (Fin 5000), Render, ConfirmDelivery, ImageReady stopAntwerp None,
      CaptionReady ''Santa has arrived at Antwerp!'', FallbackElapsed [stopAntwerp] stopAntwerp]"

text \<open>
  A stop for which the geocoder answers the latitude \<open>2^600\<close>, a finite double. The
  difference to the latitude of Santa rounds to \<open>2^600\<close>, its square overflows, and the
  distance is infinite.
\<close>

definition farLatitude :: real where
  "farLatitude = 2 ^ 600"

definition farAnswer :: geocode_response where
  "farAnswer = GeocodeAnswer \<lparr>data_found = JBool True, data_lat = JNumber (Fin farLatitude),
     data_lng = JNumber (Fin 4), data_formattedName = ''Far''\<rparr>"

definition stopFar :: Stop where
  "stopFar = \<lparr>stop_id = ''f'', name = ''Far'', present = ''Map'',
     coordinates = \<lparr>lat = Fin farLatitude, lng = Fin 4\<rparr>,
     isDelivered = False, isNext = False\<rparr>"

definition flightToFar :: "event list" where
  "flightToFar =
     [SetLocationInput ''Far'', SetPresentInput ''Map'', AddStop farAnswer ''f'',
      StartDelivery, Render, Frame (Fin 0)]"

section \<open>Auxiliary facts\<close>

subsection \<open>Rounding\<close>

lemma quantum_eq:
  assumes "2 powi k \<le> \<bar>x\<bar>" and "\<bar>x\<bar> < 2 powi (k + 1)"
  shows "quantum x = max (k - 52) (- 1074)"
proof -
  have pos: "0 < \<bar>x\<bar>"
    using assms(1) by (smt (verit) zero_less_power_int)
  have p: "(2::real) powr (of_int j) = 2 powi j" for j
    by (simp add: powr_int power_int_def inverse_eq_divide power_one_over)
  have "2 powr (of_int k) \<le> \<bar>x\<bar> \<and> \<bar>x\<bar> < 2 powr (of_int k + 1)"
    using assms p [of k] p [of "k + 1"] by simp
  then have "\<lfloor>log 2 \<bar>x\<bar>\<rfloor> = k"
    using floor_log_eq_powr_iff [of "\<bar>x\<bar>" 2 k] pos by simp
  then show ?thesis by (simp add: quantum_def)
qed

text \<open>Rounding a value whose binary exponent \<open>k\<close> is known.\<close>

lemma roundToDouble_at:
  assumes "2 powi k \<le> \<bar>x\<bar>" and "\<bar>x\<bar> < 2 powi (k + 1)"
  shows "roundToDouble x = roundAt (max (k - 52) (- 1074)) x"
proof -
  have "x \<noteq> 0" using assms(1) by (smt (verit) zero_less_power_int abs_zero)
  then show ?thesis by (simp add: roundToDouble_def quantum_eq [OF assms])
qed

lemma roundHalfEven_int: "roundHalfEven (of_int m) = m"
  by (simp add: roundHalfEven_def)

lemma roundHalfEven_nonneg: "0 \<le> x \<Longrightarrow> 0 \<le> roundHalfEven x"
  by (auto simp: roundHalfEven_def Let_def)

lemma exponent_below:
  assumes "x \<noteq> 0"
  shows "2 powi (\<lfloor>log 2 \<bar>x\<bar>\<rfloor>) \<le> \<bar>x\<bar>"
proof -
  have p: "(2::real) powr (of_int j) = 2 powi j" for j
    by (simp add: powr_int power_int_def inverse_eq_divide power_one_over)
  have "2 powr (of_int \<lfloor>log 2 \<bar>x\<bar>\<rfloor>) \<le> \<bar>x\<bar>"
    using floor_log_eq_powr_iff [of "\<bar>x\<bar>" 2 "\<lfloor>log 2 \<bar>x\<bar>\<rfloor>"] assms by simp
  then show ?thesis by (simp add: p)
qed

lemma scaled_back:
  assumes "Q \<le> q"
  shows "of_int (roundHalfEven (of_int m * 2 powi q / 2 powi Q)) * 2 powi Q
           = (of_int m * 2 powi q :: real)"
proof -
  have d: "(2::real) powi (q - Q) = of_int (2 ^ nat (q - Q))"
    using assms by (simp add: power_int_def)
  have "of_int m * 2 powi q / 2 powi Q = of_int m * (2::real) powi (q - Q)"
    by (simp add: power_int_diff)
  also have "\<dots> = of_int (m * 2 ^ nat (q - Q))"
    by (simp only: d of_int_mult)
  finally have "roundHalfEven (of_int m * 2 powi q / 2 powi Q) = m * 2 ^ nat (q - Q)"
    by (simp only: roundHalfEven_int)
  then have "of_int (roundHalfEven (of_int m * 2 powi q / 2 powi Q)) * 2 powi Q
           = of_int m * ((2::real) powi (q - Q) * 2 powi Q)"
    by (simp only: of_int_mult d mult.assoc)
  also have "(2::real) powi (q - Q) * 2 powi Q = 2 powi q"
    by (simp flip: power_int_add)
  finally show ?thesis .
qed

text \<open>
  A value \<open>m * 2^q\<close> with a significand \<open>m\<close> below \<open>2^53\<close> and \<open>q\<close> in the range of
  the format is a double: rounding returns it.
\<close>

lemma roundToDouble_exact:
  assumes x: "x = of_int m * 2 powi q" and m: "\<bar>m\<bar> < 2 ^ 53" and q: "- 1074 \<le> q" "q \<le> 971"
  shows "roundToDouble x = Fin x"
proof (cases "x = 0")
  case True
  then show ?thesis by (simp add: roundToDouble_def)
next
  case False
  let ?e = "\<lfloor>log 2 \<bar>x\<bar>\<rfloor>"
  let ?Q = "quantum x"
  have "\<bar>x\<bar> = of_int \<bar>m\<bar> * 2 powi q"
    by (simp add: x abs_mult)
  also have "\<dots> < 2 ^ 53 * 2 powi q"
    using m by (intro mult_strict_right_mono)
      (auto simp: of_int_less_iff [where 'a = real, symmetric] simp del: of_int_less_iff)
  also have "\<dots> = 2 powi (53 + q)"
    by (simp add: power_int_add)
  finally have up: "\<bar>x\<bar> < 2 powi (53 + q)" .
  from exponent_below [OF False] up have "(2::real) powi ?e < 2 powi (53 + q)" by simp
  then have "?e < 53 + q"
    using power_int_increasing [of "53 + q" ?e "2::real"] by (cases "?e < 53 + q") auto
  then have Qq: "?Q \<le> q" using q by (simp add: quantum_def)
  have r: "of_int (roundHalfEven (x / 2 powi ?Q)) * 2 powi ?Q = x"
    using Qq by (simp only: x scaled_back)
  have "\<bar>x\<bar> < 2 powi (53 + 971)"
    using up q power_int_increasing [of "53 + q" "53 + 971" "2::real"] by simp
  then have "\<bar>x\<bar> < 2 ^ 1024" by simp
  with False r show ?thesis
    by (simp add: roundToDouble_def roundAt_def Let_def)
qed

lemma roundToDouble_of_int: "\<bar>n\<bar> < 2 ^ 53 \<Longrightarrow> roundToDouble (of_int n) = Fin (of_int n)"
  using roundToDouble_exact [of "of_int n" n 0] by simp

lemma roundToDouble_numeral:
  "(numeral k :: int) < 2 ^ 53 \<Longrightarrow> roundToDouble (numeral k) = Fin (numeral k)"
  using roundToDouble_of_int [of "numeral k"] by simp

lemma roundToDouble_neg_numeral:
  "(numeral k :: int) < 2 ^ 53 \<Longrightarrow> roundToDouble (- numeral k) = Fin (- numeral k)"
  using roundToDouble_of_int [of "- numeral k"] by simp

lemma roundToDouble_zero: "roundToDouble 0 = Fin 0"
  by (simp add: roundToDouble_def)

lemma roundToDouble_one: "roundToDouble 1 = Fin 1"
  using roundToDouble_of_int [of 1] by simp

lemmas small_integers =
  roundToDouble_numeral roundToDouble_neg_numeral roundToDouble_zero roundToDouble_one

text \<open>Rounding a value that is not negative gives a value that is not negative.\<close>

lemma roundToDouble_nonneg:
  assumes "0 \<le> x"
  shows "roundToDouble x = PosInf \<or> (\<exists>r. 0 \<le> r \<and> roundToDouble x = Fin r)"
proof -
  have "0 \<le> x / 2 powi quantum x" using assms by simp
  then have "0 \<le> roundHalfEven (x / 2 powi quantum x)" by (rule roundHalfEven_nonneg)
  then have "0 \<le> of_int (roundHalfEven (x / 2 powi quantum x)) * (2::real) powi quantum x"
    by simp
  with assms show ?thesis
    by (auto simp: roundToDouble_def roundAt_def Let_def)
qed

text \<open>
  The literal \<open>0.005\<close>, and the step of a frame of 18 milliseconds: \<open>18 / 1000\<close> and the
  product with 12 both round, and the step is \<open>0.21599999999999997\<close>, below \<open>0.216\<close>.
\<close>

lemma arrivalEpsilon_value: "arrivalEpsilon = Fin (5764607523034235 / 2 ^ 60)"
  unfolding arrivalEpsilon_def
  by (subst roundToDouble_at [of "- 8"]) (simp_all add: roundAt_def roundHalfEven_def)

lemma eighteen_thousandths:
  "num_div (Fin 18) (Fin 1000) = Fin (5188146770730811 / 2 ^ 58)"
  by (simp, subst roundToDouble_at [of "- 6"]) (simp_all add: roundAt_def roundHalfEven_def)

lemma stepSize_18ms:
  "stepSize (Fin 1) (Fin 18) = Fin (972777519512027 / 2 ^ 52)
 \<and> (972777519512027 / 2 ^ 52 :: real) < 216 / 1000"
proof -
  have "num_mul (Fin 12) (Fin (5188146770730811 / 2 ^ 58)) = Fin (972777519512027 / 2 ^ 52)"
    by (simp, subst roundToDouble_at [of "- 3"]) (simp_all add: roundAt_def roundHalfEven_def)
  moreover have "num_mul (Fin 12) (Fin 1) = Fin 12"
    by (simp add: small_integers)
  ultimately show ?thesis
    unfolding stepSize_def Let_def eighteen_thousandths by simp
qed

subsection \<open>A frame that stops short of the target\<close>

lemma roundHalfEven_between:
  assumes "of_int m - 1 / 2 < y" and "y < of_int m + 1 / 2"
  shows "roundHalfEven y = m"
proof (cases "of_int m \<le> y")
  case True
  with assms have "\<lfloor>y\<rfloor> = m" by linarith
  with assms show ?thesis by (simp add: roundHalfEven_def)
next
  case False
  with assms have "\<lfloor>y\<rfloor> = m - 1" by linarith
  with assms show ?thesis by (simp add: roundHalfEven_def)
qed

text \<open>
  Rounding a square root: the exponent \<open>k\<close> and the significand \<open>m\<close> are checked on the
  squares.
\<close>

lemma roundToDouble_sqrt:
  assumes k: "(2 powi k)\<^sup>2 \<le> v" "v < (2 powi (k + 1))\<^sup>2"
    and m: "((of_int m - 1 / 2) * 2 powi (k - 52))\<^sup>2 < v"
           "v < ((of_int m + 1 / 2) * 2 powi (k - 52))\<^sup>2"
    and pos: "1 \<le> m" and range: "- 1022 \<le> k" "k < 1023"
  shows "roundToDouble (sqrt v) = Fin (of_int m * 2 powi (k - 52))"
proof -
  let ?q = "k - 52"
  have p: "0 < (2::real) powi j" for j by simp
  have v: "0 \<le> v" using k(1) by (smt (verit) zero_le_power2)
  have lo: "2 powi k \<le> \<bar>sqrt v\<bar>"
    using k(1) p [of k] v by (simp add: real_le_rsqrt)
  have hi: "\<bar>sqrt v\<bar> < 2 powi (k + 1)"
    using k(2) p [of "k + 1"] v by (simp add: real_less_lsqrt)
  have q: "max (k - 52) (- 1074) = ?q" using range by simp
  have a: "(of_int m - 1 / 2) * 2 powi ?q < sqrt v"
    using m(1) by (rule real_less_rsqrt)
  have "0 \<le> (of_int m + 1 / 2) * (2::real) powi ?q"
    using pos by simp
  then have b: "sqrt v < (of_int m + 1 / 2) * 2 powi ?q"
    using m(2) v by (intro real_less_lsqrt) auto
  have "of_int m - 1 / 2 < sqrt v / 2 powi ?q" "sqrt v / 2 powi ?q < of_int m + 1 / 2"
    using a b p [of ?q] by (simp_all add: field_simps)
  then have r: "roundHalfEven (sqrt v / 2 powi ?q) = m"
    by (rule roundHalfEven_between)
  have "sqrt v < 2 powi (k + 1)" using hi by simp
  also have "\<dots> \<le> 2 powi 1023"
    using range by (intro power_int_increasing) auto
  finally have "sqrt v < 2 ^ 1023" by simp
  have "of_int m * 2 powi ?q < sqrt v + 1 / 2 * 2 powi ?q"
    using a by (simp add: algebra_simps)
  moreover have "1 / 2 * (2::real) powi ?q \<le> 2 powi 1023"
  proof -
    have "(2::real) powi ?q \<le> 2 powi 1023"
      using range by (intro power_int_increasing) auto
    moreover have "0 < (2::real) powi ?q" by (rule p)
    ultimately show ?thesis by linarith
  qed
  ultimately have "of_int m * 2 powi ?q < (2::real) ^ 1024"
    using \<open>sqrt v < 2 ^ 1023\<close> by simp
  moreover have "0 \<le> of_int m * (2::real) powi ?q" using pos by simp
  ultimately have fin: "\<not> 2 ^ 1024 \<le> \<bar>of_int m * (2::real) powi ?q\<bar>" by simp
  from roundToDouble_at [OF lo hi] q r fin show ?thesis
    by (simp add: roundAt_def Let_def)
qed

text \<open>
  A stop at latitude \<open>83.988\<close> and the longitude of the North Pole, and a frame one
  millisecond after the last. The latitude is the double nearest to \<open>83.988\<close>; the
  difference to 84 is exact, its square rounds, and the distance is
  \<open>0.012000000000000455\<close>. The step is the double \<open>0.012\<close>. The distance is above the
  step and above \<open>0.005\<close>: the frame moves Santa and does not arrive.
\<close>

lemma short_of_target:
  "distanceTo \<lparr>lat = Fin (1477532521498411 / 2 ^ 44), lng = Fin (- 40)\<rparr> NORTH_POLE
     = Fin (211106232533 / 2 ^ 44)
 \<and> stepSize (Fin 1) (num_sub (Fin 1) (Fin 0)) = Fin (3458764513820541 / 2 ^ 58)
 \<and> \<not> num_le (Fin (211106232533 / 2 ^ 44)) (Fin (3458764513820541 / 2 ^ 58))
 \<and> \<not> num_lt (Fin (211106232533 / 2 ^ 44)) arrivalEpsilon"
proof -
  have d: "roundToDouble (1477532521498411 / 2 ^ 44 - 84) = Fin (- 211106232533 / 2 ^ 44)"
    using roundToDouble_exact [of "1477532521498411 / 2 ^ 44 - 84" "- 211106232533" "- 44"]
    by simp
  have sq: "roundToDouble (- 211106232533 / 2 ^ 44 * (- 211106232533 / 2 ^ 44))
              = Fin (2656331146614377 / 2 ^ 64)"
    by (subst roundToDouble_at [of "- 13"]) (simp_all add: roundAt_def roundHalfEven_def)
  have keep: "roundToDouble (2656331146614377 / 2 ^ 64 + 0) = Fin (2656331146614377 / 2 ^ 64)"
    using roundToDouble_exact [of "2656331146614377 / 2 ^ 64" 2656331146614377 "- 64"]
    by simp
  have root: "roundToDouble (sqrt (2656331146614377 / 2 ^ 64)) = Fin (211106232533 / 2 ^ 44)"
    using roundToDouble_sqrt [of "- 7" "2656331146614377 / 2 ^ 64" 6917529027641344]
    by (simp add: power2_eq_square)
  have dist: "distanceTo \<lparr>lat = Fin (1477532521498411 / 2 ^ 44), lng = Fin (- 40)\<rparr> NORTH_POLE
     = Fin (211106232533 / 2 ^ 44)"
    unfolding distanceTo_def Let_def NORTH_POLE_def num_sub_def
    using d sq keep root by (simp add: roundToDouble_zero)
  have th: "roundToDouble (1 / 1000) = Fin (1152921504606847 / 2 ^ 60)"
    by (subst roundToDouble_at [of "- 10"]) (simp_all add: roundAt_def roundHalfEven_def)
  have pr: "roundToDouble (12 * (1152921504606847 / 2 ^ 60)) = Fin (3458764513820541 / 2 ^ 58)"
    by (subst roundToDouble_at [of "- 7"]) (simp_all add: roundAt_def roundHalfEven_def)
  have step: "stepSize (Fin 1) (num_sub (Fin 1) (Fin 0)) = Fin (3458764513820541 / 2 ^ 58)"
    unfolding stepSize_def Let_def num_sub_def
    using th pr by (simp add: small_integers)
  from dist step show ?thesis
    by (simp add: arrivalEpsilon_value)
qed

subsection \<open>Unfolding the handlers\<close>

lemmas handler_defs =
  handleAddStop_def handleOptimize_def handleStartDelivery_def handleReset_def
  proceedToNextStop_def executeDeliverySequence_def deliveryImageReady_def
  deliveryCaptionReady_def deliveryFallbackElapsed_def handleCloseDeliveryModal_def
  handleConfirmDelivery_def handleSkipStop_def handleCancelDelivery_def syncStateRef_def
  emit_def

lemmas animate_defs = animate_def nextFrame_def arrive_def moveBy_def emit_def

lemma sqrt_3025: "sqrt 3025 = 55"
  by (rule real_sqrt_unique) simp_all

lemmas example_defs = handler_defs animate_defs distanceTo_def stepSize_def num_sub_def
  initialApp_def initialSanta_def NORTH_POLE_def antwerpAnswer_def osloAnswer_def
  stopAntwerp_def stopOslo_def planAntwerp_def planAntwerpOslo_def flightToAntwerp_def
  small_integers sqrt_3025 Let_def

subsection \<open>\<open>findIndex\<close> and \<open>find\<close>\<close>

lemma findIndex_bounds: "- 1 \<le> findIndex P xs \<and> findIndex P xs < int (length xs)"
  by (induction xs) (auto simp: Let_def)

lemma findIndex_none: "\<forall>x \<in> set xs. \<not> P x \<Longrightarrow> findIndex P xs = - 1"
  by (induction xs) (auto simp: Let_def)

lemma findIndex_hit: "0 \<le> findIndex P xs \<Longrightarrow> P (xs ! nat (findIndex P xs))"
proof (induction xs)
  case Nil
  then show ?case by simp
next
  case (Cons x xs)
  show ?case
  proof (cases "P x")
    case True
    then show ?thesis by simp
  next
    case False
    with Cons.prems have nn: "0 \<le> findIndex P xs"
      by (auto simp: Let_def split: if_splits)
    then have "nat (findIndex P xs + 1) = Suc (nat (findIndex P xs))" by simp
    with False nn Cons.IH show ?thesis by (simp add: Let_def)
  qed
qed


lemma find_distinct_id:
  "distinct (map stop_id sts) \<Longrightarrow> st \<in> set sts \<Longrightarrow>
   find (\<lambda>x. stop_id x = stop_id st) sts = Some st"
  by (induction sts) auto

subsection \<open>The reorder step\<close>

lemma reorder_ids:
  "map stop_id (reorderStops sts ids) = filter (\<lambda>i. i \<in> set (map stop_id sts)) ids"
proof (induction ids)
  case Nil
  then show ?case by (simp add: reorderStops_def)
next
  case (Cons i ids)
  show ?case
  proof (cases "find (\<lambda>st. stop_id st = i) sts")
    case None
    then have "i \<notin> set (map stop_id sts)" by (auto simp: find_None_iff)
    with None Cons show ?thesis by (simp add: reorderStops_def)
  next
    case (Some st)
    then have hit: "stop_id st = i \<and> st \<in> set sts"
      by (auto simp: find_Some_iff)
    then have "i \<in> set (map stop_id sts)" by auto
    with Some Cons hit show ?thesis by (simp add: reorderStops_def)
  qed
qed

lemma reorder_subset: "set (reorderStops sts ids) \<subseteq> set sts"
proof (induction ids)
  case Nil
  then show ?case by (simp add: reorderStops_def)
next
  case (Cons i ids)
  show ?case
  proof (cases "find (\<lambda>st. stop_id st = i) sts")
    case None
    with Cons show ?thesis by (simp add: reorderStops_def)
  next
    case (Some st)
    then have "st \<in> set sts" by (auto simp: find_Some_iff)
    with Some Cons show ?thesis by (simp add: reorderStops_def)
  qed
qed

lemma reorder_all_known:
  "set ids \<subseteq> set (map stop_id sts) \<Longrightarrow>
   reorderStops sts ids = map (\<lambda>i. the (find (\<lambda>st. stop_id st = i) sts)) ids"
proof (induction ids)
  case Nil
  then show ?case by (simp add: reorderStops_def)
next
  case (Cons i ids)
  then have "find (\<lambda>st. stop_id st = i) sts \<noteq> None"
    by (auto simp: find_None_iff)
  with Cons show ?case by (auto simp: reorderStops_def)
qed

lemma reorder_perm:
  assumes d: "distinct (map stop_id sts)" and p: "mset ids = mset (map stop_id sts)"
  shows "mset (reorderStops sts ids) = mset sts"
proof -
  let ?f = "\<lambda>i. the (find (\<lambda>st. stop_id st = i) sts)"
  from p have "set ids = set (map stop_id sts)" by (metis set_mset_mset)
  then have "reorderStops sts ids = map ?f ids" by (intro reorder_all_known) simp
  then have "mset (reorderStops sts ids) = image_mset ?f (mset ids)" by simp
  also have "\<dots> = image_mset ?f (mset (map stop_id sts))" using p by simp
  also have "\<dots> = mset (map (\<lambda>st. ?f (stop_id st)) sts)"
    by (simp add: image_mset.compositionality comp_def)
  also have "map (\<lambda>st. ?f (stop_id st)) sts = map (\<lambda>st. st) sts"
    by (rule map_cong) (simp_all add: find_distinct_id [OF d])
  finally show ?thesis by simp
qed

subsection \<open>The guard is clear while Santa plays\<close>





subsection \<open>The branches of a frame\<close>


lemma animate_nan_coordinate:
  assumes "find (\<lambda>st. Some (stop_id st) = targetStopId (ref_santa (stateRef s)))
           (ref_stops (stateRef s)) = Some targetStop"
    and "isNaN (lat (coordinates targetStop)) \<or> isNaN (lng (coordinates targetStop))"
  shows "animate time s = nextFrame time s"
  using assms by (auto simp: animate_def Let_def split: option.splits)

text \<open>
  The \<open>return\<close> on a \<open>NaN\<close> distance leaves the function before \<open>lastTimeRef\<close> is
  written and before the next frame is requested.
\<close>

lemma animate_nan_distance:
  assumes "lastTimeRef s = Some lastTime"
    and "isPlaying (ref_santa (stateRef s))"
    and "truthy (targetStopId (ref_santa (stateRef s)))"
    and "find (\<lambda>st. Some (stop_id st) = targetStopId (ref_santa (stateRef s)))
           (ref_stops (stateRef s)) = Some targetStop"
    and "\<not> isNaN (lat (coordinates targetStop))" and "\<not> isNaN (lng (coordinates targetStop))"
    and "isNaN (distanceTo (coordinates targetStop) (currentPosition (ref_santa (stateRef s))))"
  shows "animate time s = s"
  using assms by (simp add: animate_def Let_def)

lemma animate_stops: "stops (animate time s) = stops s"
  by (simp add: animate_defs Let_def split: option.splits)

subsection \<open>Counting the chime\<close>







subsection \<open>The delivered flags\<close>

lemma flagsKept_refl: "flagsKept xs xs"
  by (simp add: flagsKept_def list_all2_refl)

lemma flagsKept_trans: "flagsKept xs ys \<Longrightarrow> flagsKept ys zs \<Longrightarrow> flagsKept xs zs"
  unfolding flagsKept_def
proof (rule list_all2_trans)
  fix a b c :: Stop
  assume "b = a \<or> b = a\<lparr>isDelivered := True\<rparr>" and "c = b \<or> c = b\<lparr>isDelivered := True\<rparr>"
  then show "c = a \<or> c = a\<lparr>isDelivered := True\<rparr>" by auto
qed

lemma flagsKept_mark:
  "flagsKept xs (map (\<lambda>st. if stop_id st = i then st\<lparr>isDelivered := True\<rparr> else st) xs)"
  by (simp add: flagsKept_def list_all2_map2 list_all2_refl)

lemma step_flagsKept: "deliveryEvent e \<Longrightarrow> flagsKept (stops s) (stops (step e s))"
proof (cases e)
  case (Frame t)
  then show ?thesis by (simp add: animate_stops flagsKept_refl)
next
  case ConfirmDelivery
  then show ?thesis
    by (simp add: handleConfirmDelivery_def executeDeliverySequence_def emit_def Let_def
        flagsKept_refl flagsKept_mark split: option.splits)
next
  case (ExecuteDelivery st)
  then show ?thesis
    by (simp add: executeDeliverySequence_def emit_def Let_def flagsKept_mark)
qed (simp_all add: handler_defs Let_def flagsKept_refl)

lemma run_flagsKept:
  "\<forall>e \<in> set es. deliveryEvent e \<Longrightarrow> flagsKept (stops s) (stops (run es s))"
proof (induction es arbitrary: s)
  case Nil
  then show ?case by (simp add: flagsKept_refl)
next
  case (Cons e es)
  then have "flagsKept (stops s) (stops (step e s))"
    and "flagsKept (stops (step e s)) (stops (run es (step e s)))"
    by (simp_all add: step_flagsKept)
  then show ?case using flagsKept_trans by simp
qed

subsection \<open>Only finite coordinates enter the list of stops\<close>

lemma geocode_finite:
  "geocodeLocation response = Some r \<Longrightarrow> isFinite (result_lat r) \<and> isFinite (result_lng r)"
proof (cases response)
  case GeocodeThrows
  assume "geocodeLocation response = Some r"
  with GeocodeThrows show ?thesis by simp
next
  case (GeocodeAnswer d)
  assume "geocodeLocation response = Some r"
  with GeocodeAnswer show ?thesis
    by (cases "data_lat d"; cases "data_lng d") (auto split: if_splits)
qed

lemma addStop_finite:
  "\<forall>st \<in> set (stops s). finiteStop st \<Longrightarrow>
   \<forall>st \<in> set (stops (handleAddStop response newId s)). finiteStop st"
  by (auto simp: handleAddStop_def Let_def finiteStop_def split: option.splits dest: geocode_finite)

lemma step_finite:
  assumes "\<forall>st \<in> set (stops s). finiteStop st"
  shows "\<forall>st \<in> set (stops (step e s)). finiteStop st"
proof (cases e)
  case (AddStop r i)
  with assms show ?thesis using addStop_finite by simp
next
  case (Optimize r)
  with assms show ?thesis using reorder_subset by (auto simp: handleOptimize_def Let_def)
next
  case (Frame t)
  with assms show ?thesis by (simp add: animate_stops)
qed (use assms in \<open>auto simp: handler_defs Let_def finiteStop_def split: option.splits\<close>)

lemma run_finite:
  "\<forall>st \<in> set (stops s). finiteStop st \<Longrightarrow> \<forall>st \<in> set (stops (run es s)). finiteStop st"
proof (induction es arbitrary: s)
  case Nil
  then show ?case by simp
next
  case (Cons e es)
  from Cons.prems have "\<forall>st \<in> set (stops (step e s)). finiteStop st" by (rule step_finite)
  then show ?case using Cons.IH by simp
qed

subsection \<open>The example runs, evaluated\<close>

lemma planned_antwerp:
  "stops (run planAntwerp initialApp) = [stopAntwerp]
 \<and> status (run planAntwerp initialApp) = PLANNING
 \<and> \<not> loading (run planAntwerp initialApp)"
  by (simp add: example_defs)

lemma planned_antwerp_oslo: "stops (run planAntwerpOslo initialApp) = [stopAntwerp, stopOslo]"
  by (simp add: example_defs)



lemma flying_rest:
  "lastTimeRef (run flightToAntwerp initialApp) = Some (Fin 0)
 \<and> stops (run flightToAntwerp initialApp) = [stopAntwerp]
 \<and> effects (run flightToAntwerp initialApp) = [RequestAnimationFrame]
 \<and> lastArrivalStopIdRef (run flightToAntwerp initialApp) = None"
  by (simp add: example_defs)


lemma five_second_step: "stepSize (Fin 1) (num_sub (Fin 5000) (Fin 0)) = Fin 60"
  by (simp add: example_defs)

lemma arrived_santa:
  "santa (run (flightToAntwerp @ [Frame (Fin 5000)]) initialApp) =
     \<lparr>currentPosition = \<lparr>lat = Fin 51, lng = Fin 4\<rparr>, targetStopId = Some ''a'',
      isPlaying = False, speed = Fin 1, isDelivering = False\<rparr>"
  by (simp add: example_defs)

subsection \<open>A distance that overflows\<close>

lemma difference_finite: "isFinite (num_sub a b) \<Longrightarrow> isFinite a \<and> isFinite b"
  by (cases a; cases b) (simp_all add: num_sub_def)

lemma nonNegative_round: "0 \<le> x \<Longrightarrow> nonNegative (roundToDouble x)"
  using roundToDouble_nonneg [of x] by auto

lemma nonNegative_square: "isFinite a \<Longrightarrow> nonNegative (num_mul a a)"
  by (cases a) (simp_all add: nonNegative_round)

lemma nonNegative_add: "nonNegative a \<Longrightarrow> nonNegative b \<Longrightarrow> nonNegative (num_add a b)"
  by (cases a; cases b) (simp_all add: nonNegative_round)

lemma nonNegative_sqrt: "nonNegative a \<Longrightarrow> nonNegative (num_sqrt a)"
  by (cases a) (simp_all add: nonNegative_round)

text \<open>With finite differences the distance is finite or the positive infinity.\<close>

lemma distance_overflow:
  assumes "isFinite (num_sub (lat t) (lat c))" and "isFinite (num_sub (lng t) (lng c))"
    and "\<not> isFinite (distanceTo t c)"
  shows "distanceTo t c = PosInf"
proof -
  have "nonNegative (distanceTo t c)"
    using assms(1,2)
    by (simp add: distanceTo_def Let_def nonNegative_sqrt nonNegative_add nonNegative_square)
  with assms(3) show ?thesis
    by (cases "distanceTo t c") simp_all
qed

lemma not_below_infinity: "num_lt PosInf y = False"
  by (cases y) simp_all

lemma infinity_le: "num_le PosInf y = (y = PosInf)"
  by (cases y) simp_all

lemma ratio_to_infinity: "y \<noteq> PosInf \<Longrightarrow> num_div y PosInf = Fin 0 \<or> num_div y PosInf = NaN"
  by (cases y) simp_all

lemma add_zero_double: "isDouble p \<Longrightarrow> num_add p (Fin 0) = p"
  by (cases p) simp_all

lemma times_zero: "isFinite a \<Longrightarrow> num_mul a (Fin 0) = Fin 0"
  by (cases a) (simp_all add: roundToDouble_zero)

text \<open>
  A frame that finds an infinite distance, with finite differences and a step that is not
  infinite, moves Santa by zero or not at all, and requests the next frame.
\<close>

lemma animate_infinite_distance:
  assumes "lastTimeRef s = Some lastTime"
    and "isPlaying (ref_santa (stateRef s))"
    and "truthy (targetStopId (ref_santa (stateRef s)))"
    and "find (\<lambda>st. Some (stop_id st) = targetStopId (ref_santa (stateRef s)))
           (ref_stops (stateRef s)) = Some targetStop"
    and dLat: "isFinite (num_sub (lat (coordinates targetStop))
                 (lat (currentPosition (ref_santa (stateRef s)))))"
    and dLng: "isFinite (num_sub (lng (coordinates targetStop))
                 (lng (currentPosition (ref_santa (stateRef s)))))"
    and inf: "\<not> isFinite (distanceTo (coordinates targetStop)
                 (currentPosition (ref_santa (stateRef s))))"
    and step: "stepSize (speed (ref_santa (stateRef s))) (num_sub time lastTime) \<noteq> PosInf"
    and dbl: "isDouble (lat (currentPosition (santa s)))"
             "isDouble (lng (currentPosition (santa s)))"
  shows "animate time s = nextFrame time s"
proof -
  let ?t = "coordinates targetStop"
  let ?c = "currentPosition (ref_santa (stateRef s))"
  let ?step = "stepSize (speed (ref_santa (stateRef s))) (num_sub time lastTime)"
  have dist: "distanceTo ?t ?c = PosInf"
    using dLat dLng inf by (rule distance_overflow)
  have coords: "\<not> isNaN (lat ?t) \<and> \<not> isNaN (lng ?t)"
    using difference_finite [OF dLat] difference_finite [OF dLng]
    by (cases "lat ?t"; cases "lng ?t") simp_all
  have same: "moveBy (num_sub (lat ?t) (lat ?c)) (num_sub (lng ?t) (lng ?c)) (Fin 0) s = s"
    using dLat dLng dbl by (simp add: moveBy_def times_zero add_zero_double)
  from ratio_to_infinity [OF step] show ?thesis
  proof
    assume "num_div ?step PosInf = Fin 0"
    with assms(1-4) coords dist step same show ?thesis
      by (simp add: animate_def Let_def not_below_infinity infinity_le)
  next
    assume "num_div ?step PosInf = NaN"
    with assms(1-4) coords dist step show ?thesis
      by (simp add: animate_def Let_def not_below_infinity infinity_le)
  qed
qed

subsection \<open>The flight to the far stop\<close>

lemma far_difference: "roundToDouble (farLatitude - 84) = Fin farLatitude"
  unfolding farLatitude_def
  by (simp, subst roundToDouble_at [of 599]) (simp_all add: roundAt_def roundHalfEven_def)

lemma far_square: "roundToDouble (farLatitude * farLatitude) = PosInf"
  unfolding farLatitude_def
  by (simp, subst roundToDouble_at [of 1200]) (simp_all add: roundAt_def roundHalfEven_def)

lemma far_distance: "distanceTo (coordinates stopFar) NORTH_POLE = PosInf"
  by (simp add: distanceTo_def Let_def stopFar_def NORTH_POLE_def num_sub_def
      far_difference far_square small_integers)

lemma far_latitude_double: "roundToDouble farLatitude = Fin farLatitude"
  unfolding farLatitude_def
  using roundToDouble_exact [of "2 ^ 600" 1 600] by simp

lemma flying_far:
  "lastTimeRef (run flightToFar initialApp) = Some (Fin 0)
 \<and> ref_stops (stateRef (run flightToFar initialApp)) = [stopFar]
 \<and> ref_santa (stateRef (run flightToFar initialApp)) =
     \<lparr>currentPosition = NORTH_POLE, targetStopId = Some ''f'', isPlaying = True,
      speed = Fin 1, isDelivering = False\<rparr>
 \<and> santa (run flightToFar initialApp) = ref_santa (stateRef (run flightToFar initialApp))
 \<and> pendingDeliveryStop (run flightToFar initialApp) = None
 \<and> effects (run flightToFar initialApp) = [RequestAnimationFrame]"
  by (simp add: flightToFar_def farAnswer_def stopFar_def example_defs far_latitude_double)

section \<open>The animation frame: arrival\<close>



section \<open>The arrival side effects\<close>



section \<open>Advancing to the next stop\<close>

text \<open>
  C3. For every list of stops and every completed-stop id, \<open>proceedToNextStop\<close> ends in
  one of two ways. When the index found for the id is below the last index of the list it
  reads, the new target is the id of the stop at the next index of that list, \<open>isPlaying\<close>
  is true, the guard is cleared and the phase is unchanged. Otherwise the phase becomes
  \<open>FINISHED\<close> and the target, the position and \<open>isPlaying\<close> are left as they were: motion
  is stopped when it was stopped at the call, as it is after an arrival. The registry
  itself is never changed. Called from a click -- the skip, or the dismissal of the
  delivery image -- the list it reads is the current registry: the new target is a stop
  of the registry, and a target that was in the registry before the call is in it after.
\<close>

theorem proceedToNextStop_outcomes:
  "(let i = findIndex (\<lambda>st. stop_id st = cid) sts;
        s' = proceedToNextStop sts cid s
    in if i < int (length sts) - 1
       then nat (i + 1) < length sts
          \<and> targetStopId (santa s') = Some (stop_id (sts ! nat (i + 1)))
          \<and> stop_id (sts ! nat (i + 1)) \<in> set (map stop_id sts)
          \<and> isPlaying (santa s')
          \<and> lastArrivalStopIdRef s' = None
          \<and> status s' = status s
          \<and> (0 \<le> i \<longrightarrow> stop_id (sts ! nat i) = cid)
          \<and> (sts = stops s \<longrightarrow> targetInRegistry s')
       else status s' = FINISHED
          \<and> targetStopId (santa s') = targetStopId (santa s)
          \<and> isPlaying (santa s') = isPlaying (santa s)
          \<and> currentPosition (santa s') = currentPosition (santa s))
 \<and> stops (proceedToNextStop sts cid s) = stops s
 \<and> (targetInRegistry s \<longrightarrow>
        targetInRegistry (proceedToNextStop (stops s) cid s)
      \<and> targetInRegistry (handleSkipStop cid s)
      \<and> targetInRegistry (handleCloseDeliveryModal s))"
proof -
  let ?i = "findIndex (\<lambda>st. stop_id st = cid) sts"
  have b: "- 1 \<le> ?i" using findIndex_bounds by blast
  have hit: "0 \<le> ?i \<longrightarrow> stop_id (sts ! nat ?i) = cid"
    using findIndex_hit [of "\<lambda>st. stop_id st = cid" sts] by simp
  have same: "stops (proceedToNextStop l c u) = stops u" for l c u
    by (simp add: proceedToNextStop_def Let_def emit_def)
  have reg: "targetInRegistry (proceedToNextStop (stops u) c u)"
    if "targetInRegistry u
        \<or> findIndex (\<lambda>st. stop_id st = c) (stops u) < int (length (stops u)) - 1" for c u
  proof (cases "findIndex (\<lambda>st. stop_id st = c) (stops u) < int (length (stops u)) - 1")
    case True
    moreover have "- 1 \<le> findIndex (\<lambda>st. stop_id st = c) (stops u)"
      using findIndex_bounds by blast
    ultimately have "nat (findIndex (\<lambda>st. stop_id st = c) (stops u) + 1) < length (stops u)"
      by linarith
    then have "stops u ! nat (findIndex (\<lambda>st. stop_id st = c) (stops u) + 1) \<in> set (stops u)"
      by simp
    with True show ?thesis
      by (simp add: targetInRegistry_def proceedToNextStop_def Let_def)
  next
    case False
    with that show ?thesis
      by (auto simp: targetInRegistry_def proceedToNextStop_def Let_def emit_def
          split: option.splits)
  qed
  have skip: "targetInRegistry (handleSkipStop cid s)" if "targetInRegistry s"
  proof -
    have "targetInRegistry (s\<lparr>pendingDeliveryStop := None\<rparr>)"
      using that by (auto simp: targetInRegistry_def split: option.splits)
    from reg [of "s\<lparr>pendingDeliveryStop := None\<rparr>" cid] this
    have "targetInRegistry (proceedToNextStop (stops s) cid (s\<lparr>pendingDeliveryStop := None\<rparr>))"
      by simp
    then show ?thesis
      by (auto simp: handleSkipStop_def targetInRegistry_def split: option.splits)
  qed
  have close: "targetInRegistry (handleCloseDeliveryModal s)" if "targetInRegistry s"
  proof -
    let ?u = "s\<lparr>deliveryImage := None, completedDeliveryStop := None\<rparr>"
    have u: "targetInRegistry ?u"
      using that by (auto simp: targetInRegistry_def split: option.splits)
    from reg [of ?u "the (targetStopId (santa s))"] u
    have "targetInRegistry (proceedToNextStop (stops s) (the (targetStopId (santa s))) ?u)"
      by simp
    with u show ?thesis
      by (simp add: handleCloseDeliveryModal_def Let_def)
  qed
  have first: "(let i = ?i; s' = proceedToNextStop sts cid s
    in if i < int (length sts) - 1
       then nat (i + 1) < length sts
          \<and> targetStopId (santa s') = Some (stop_id (sts ! nat (i + 1)))
          \<and> stop_id (sts ! nat (i + 1)) \<in> set (map stop_id sts)
          \<and> isPlaying (santa s')
          \<and> lastArrivalStopIdRef s' = None
          \<and> status s' = status s
          \<and> (0 \<le> i \<longrightarrow> stop_id (sts ! nat i) = cid)
          \<and> (sts = stops s \<longrightarrow> targetInRegistry s')
       else status s' = FINISHED
          \<and> targetStopId (santa s') = targetStopId (santa s)
          \<and> isPlaying (santa s') = isPlaying (santa s)
          \<and> currentPosition (santa s') = currentPosition (santa s))"
  proof (cases "?i < int (length sts) - 1")
    case True
    with b have lt: "nat (?i + 1) < length sts" by linarith
    then have mem: "sts ! nat (?i + 1) \<in> set sts" by simp
    have regc: "sts = stops s \<longrightarrow> targetInRegistry (proceedToNextStop sts cid s)"
      using True reg [of s cid] by auto
    have core: "targetStopId (santa (proceedToNextStop sts cid s))
                  = Some (stop_id (sts ! nat (?i + 1)))
          \<and> stop_id (sts ! nat (?i + 1)) \<in> set (map stop_id sts)
          \<and> isPlaying (santa (proceedToNextStop sts cid s))
          \<and> lastArrivalStopIdRef (proceedToNextStop sts cid s) = None
          \<and> status (proceedToNextStop sts cid s) = status s"
      using True mem by (simp add: proceedToNextStop_def Let_def)
    show ?thesis
      unfolding Let_def by (simp only: True if_True) (use lt core hit regc in blast)
  next
    case False
    then show ?thesis
      by (simp add: proceedToNextStop_def Let_def emit_def)
  qed
  from first same reg [of s cid] skip close show ?thesis by blast
qed

text \<open>
  From Antwerp the advance goes to Oslo; from Oslo, the last stop, the run finishes; and
  skipping Antwerp in the planned registry leaves the target in the registry.
\<close>

theorem proceedToNextStop_outcomes_witness:
  "targetStopId (santa (proceedToNextStop [stopAntwerp, stopOslo] ''a'' initialApp)) = Some ''b''
 \<and> isPlaying (santa (proceedToNextStop [stopAntwerp, stopOslo] ''a'' initialApp))
 \<and> status (proceedToNextStop [stopAntwerp, stopOslo] ''b'' initialApp) = FINISHED
 \<and> \<not> isPlaying (santa (proceedToNextStop [stopAntwerp, stopOslo] ''b'' initialApp))
 \<and> targetInRegistry (run planAntwerpOslo initialApp)
 \<and> targetInRegistry (handleSkipStop ''a'' (run planAntwerpOslo initialApp))
 \<and> targetStopId (santa (handleSkipStop ''a'' (run planAntwerpOslo initialApp))) = Some ''b''"
proof -
  have t: "targetInRegistry (run planAntwerpOslo initialApp)"
    by (simp add: targetInRegistry_def example_defs)
  have "targetStopId (santa (handleSkipStop ''a'' (run planAntwerpOslo initialApp))) = Some ''b''"
    by (simp add: example_defs)
  with t proceedToNextStop_outcomes [of "''a''" "[stopAntwerp, stopOslo]" initialApp]
    proceedToNextStop_outcomes [of "''b''" "[stopAntwerp, stopOslo]" initialApp]
    proceedToNextStop_outcomes [of "''a''" "[stopAntwerp, stopOslo]"
      "run planAntwerpOslo initialApp"]
  show ?thesis
    by (simp add: Let_def stopAntwerp_def stopOslo_def initialApp_def initialSanta_def)
qed

text \<open>
  The advance that the fallback path schedules three seconds after a delivery without
  image can run after the user has reset. When the user has started again, with Antwerp
  the only stop, the phase becomes \<open>FINISHED\<close> while Santa keeps playing. When the user
  has optimised instead and the registry is Antwerp alone, the advance reads the two stops
  of the render in which the delivery was confirmed, and Oslo becomes the target: an id
  that is not in the registry.
\<close>

theorem proceedToNextStop_finished_while_playing:
  "isPlaying (santa (run restartDuringFallback initialApp))
 \<and> status (proceedToNextStop [stopAntwerp] ''a'' (run restartDuringFallback initialApp)) = FINISHED
 \<and> isPlaying (santa (proceedToNextStop [stopAntwerp] ''a'' (run restartDuringFallback initialApp)))
 \<and> map stop_id (stops (run optimizeDuringFallback initialApp)) = [''a'']
 \<and> targetStopId (santa (run optimizeDuringFallback initialApp)) = Some ''b''
 \<and> isPlaying (santa (run optimizeDuringFallback initialApp))"
  by (simp add: restartDuringFallback_def optimizeDuringFallback_def reorderStops_def
      example_defs)

text \<open>
  C10. Called with an id that no stop of a non-empty list has, \<open>proceedToNextStop\<close> does
  not finish the run: the index is \<open>-1\<close>, the first stop of the list becomes the target
  and \<open>isPlaying\<close> is set to true.
\<close>

theorem proceedToNextStop_unknown_id:
  assumes "sts \<noteq> []" and "cid \<notin> set (map stop_id sts)"
  shows "findIndex (\<lambda>st. stop_id st = cid) sts = - 1
    \<and> status (proceedToNextStop sts cid s) = status s
    \<and> targetStopId (santa (proceedToNextStop sts cid s)) = Some (stop_id (sts ! 0))
    \<and> isPlaying (santa (proceedToNextStop sts cid s))"
proof -
  have "findIndex (\<lambda>st. stop_id st = cid) sts = - 1"
    using assms(2) by (intro findIndex_none) auto
  moreover have "0 < length sts" using assms(1) by simp
  ultimately show ?thesis
    by (simp add: proceedToNextStop_def Let_def)
qed

theorem proceedToNextStop_unknown_id_witness:
  "status (proceedToNextStop [stopAntwerp, stopOslo] ''zz'' (run flightToAntwerp initialApp))
     = DELIVERING
 \<and> targetStopId (santa (proceedToNextStop [stopAntwerp, stopOslo] ''zz''
     (run flightToAntwerp initialApp))) = Some ''a''
 \<and> isPlaying (santa (proceedToNextStop [stopAntwerp, stopOslo] ''zz''
     (run flightToAntwerp initialApp)))"
proof -
  have ne: "[stopAntwerp, stopOslo] \<noteq> []" by simp
  have unknown: "''zz'' \<notin> set (map stop_id [stopAntwerp, stopOslo])"
    by (simp add: stopAntwerp_def stopOslo_def)
  have "status (run flightToAntwerp initialApp) = DELIVERING"
    by (simp add: example_defs)
  with proceedToNextStop_unknown_id [OF ne unknown, of "run flightToAntwerp initialApp"]
  show ?thesis by (simp add: stopAntwerp_def)
qed

section \<open>The delivered flag\<close>

text \<open>
  C4. Over every sequence of events other than the reset (and the two planning operations
  that rebuild the list), the list of stops keeps its length and its ids, and a stop that
  is delivered stays delivered. Skipping a stop leaves the list of stops as it is. The
  confirmed delivery marks the stops that have the id of the pending stop, and no other.
\<close>

theorem isDelivered_never_reverts:
  assumes "\<forall>e \<in> set es. deliveryEvent e"
  shows "length (stops (run es s)) = length (stops s)
    \<and> (\<forall>i < length (stops s).
          stop_id (stops (run es s) ! i) = stop_id (stops s ! i)
        \<and> (isDelivered (stops s ! i) \<longrightarrow> isDelivered (stops (run es s) ! i)))
    \<and> stops (handleSkipStop stopId s) = stops s
    \<and> (\<forall>stop. pendingDeliveryStop s = Some stop \<longrightarrow>
          (\<forall>i < length (stops s).
             stops (handleConfirmDelivery s) ! i =
               (if stop_id (stops s ! i) = stop_id stop
                then (stops s ! i)\<lparr>isDelivered := True\<rparr> else stops s ! i)))"
proof -
  have k: "list_all2 (\<lambda>a b. b = a \<or> b = a\<lparr>isDelivered := True\<rparr>) (stops s) (stops (run es s))"
    using run_flagsKept [OF assms] by (simp add: flagsKept_def)
  then have len: "length (stops (run es s)) = length (stops s)"
    by (simp add: list_all2_lengthD)
  have each: "stop_id (stops (run es s) ! i) = stop_id (stops s ! i)
        \<and> (isDelivered (stops s ! i) \<longrightarrow> isDelivered (stops (run es s) ! i))"
    if "i < length (stops s)" for i
    using list_all2_nthD [OF k that] by auto
  have skip: "stops (handleSkipStop stopId s) = stops s"
    by (simp add: handleSkipStop_def proceedToNextStop_def emit_def Let_def)
  have conf: "stops (handleConfirmDelivery s) ! i =
               (if stop_id (stops s ! i) = stop_id stop
                then (stops s ! i)\<lparr>isDelivered := True\<rparr> else stops s ! i)"
    if "pendingDeliveryStop s = Some stop" "i < length (stops s)" for stop i
    using that by (simp add: handleConfirmDelivery_def executeDeliverySequence_def emit_def Let_def)
  from len each skip conf show ?thesis by blast
qed

text \<open>
  The delivery in Antwerp, from the arrival to the fallback advance: Antwerp is delivered at
  the end, and skipping it instead leaves it undelivered.
\<close>

theorem isDelivered_never_reverts_witness:
  "list_all deliveryEvent deliveryInAntwerp
 \<and> map isDelivered (stops (run flightToAntwerp initialApp)) = [False]
 \<and> map isDelivered (stops (run deliveryInAntwerp (run flightToAntwerp initialApp))) = [True]
 \<and> map isDelivered (stops (handleSkipStop ''a'' (run flightToAntwerp initialApp))) = [False]"
proof -
  have d: "\<forall>e \<in> set deliveryInAntwerp. deliveryEvent e"
    by (simp add: deliveryInAntwerp_def)
  have "map isDelivered (stops (run deliveryInAntwerp (run flightToAntwerp initialApp))) = [True]"
    by (simp add: deliveryInAntwerp_def example_defs)
  with d isDelivered_never_reverts [OF d, of "run flightToAntwerp initialApp" "''a''"]
  show ?thesis by (simp add: list_all_iff flying_rest stopAntwerp_def)
qed

section \<open>The animation frame: degenerate numbers\<close>

text \<open>
  C5. A frame that finds Santa playing and a target stop is skipped -- the Santa motion
  state, the pending confirmation, the guard, the stops and the phase keep their values,
  no chime is played -- and the frame records its time and requests the next frame, when
  a coordinate of the target is \<open>NaN\<close>, and when the computed distance is not finite.
  The second case is the one that the registry can produce: the coordinates of its stops
  are finite, and the distance is infinite when a square or the sum overflows. It is
  stated for coordinate differences that are finite (so the target and the position are
  finite, and the distance is not \<open>NaN\<close>), for a step that is not itself infinite, and
  for a position of Santa that holds doubles.
\<close>

theorem animate_non_finite_skipped:
  assumes "lastTimeRef s = Some lastTime"
    and "isPlaying (ref_santa (stateRef s))"
    and "truthy (targetStopId (ref_santa (stateRef s)))"
    and "find (\<lambda>st. Some (stop_id st) = targetStopId (ref_santa (stateRef s)))
           (ref_stops (stateRef s)) = Some targetStop"
    and "isNaN (lat (coordinates targetStop)) \<or> isNaN (lng (coordinates targetStop))
       \<or> (\<not> isFinite (distanceTo (coordinates targetStop)
               (currentPosition (ref_santa (stateRef s))))
          \<and> isFinite (num_sub (lat (coordinates targetStop))
               (lat (currentPosition (ref_santa (stateRef s)))))
          \<and> isFinite (num_sub (lng (coordinates targetStop))
               (lng (currentPosition (ref_santa (stateRef s)))))
          \<and> stepSize (speed (ref_santa (stateRef s))) (num_sub time lastTime) \<noteq> PosInf
          \<and> isDouble (lat (currentPosition (santa s)))
          \<and> isDouble (lng (currentPosition (santa s))))"
  shows "santa (animate time s) = santa s
       \<and> pendingDeliveryStop (animate time s) = pendingDeliveryStop s
       \<and> lastArrivalStopIdRef (animate time s) = lastArrivalStopIdRef s
       \<and> stops (animate time s) = stops s
       \<and> status (animate time s) = status s
       \<and> chimes (animate time s) = chimes s
       \<and> lastTimeRef (animate time s) = Some time
       \<and> effects (animate time s) = effects s @ [RequestAnimationFrame]"
proof -
  have "animate time s = nextFrame time s"
  proof (cases "isNaN (lat (coordinates targetStop)) \<or> isNaN (lng (coordinates targetStop))")
    case True
    with assms(4) show ?thesis by (rule animate_nan_coordinate)
  next
    case False
    with assms show ?thesis
      by (intro animate_infinite_distance) auto
  qed
  then show ?thesis
    by (simp add: nextFrame_def emit_def chimes_def)
qed

text \<open>
  The flight to the far stop: the geocoder has answered a finite latitude, the distance
  overflows, and the frame at five seconds leaves Santa at the North Pole and requests the
  next frame.
\<close>

theorem animate_non_finite_skipped_witness:
  "distanceTo (coordinates stopFar) NORTH_POLE = PosInf
 \<and> currentPosition (santa (animate (Fin 5000) (run flightToFar initialApp))) = NORTH_POLE
 \<and> isPlaying (santa (animate (Fin 5000) (run flightToFar initialApp)))
 \<and> pendingDeliveryStop (animate (Fin 5000) (run flightToFar initialApp)) = None
 \<and> effects (animate (Fin 5000) (run flightToFar initialApp))
      = [RequestAnimationFrame, RequestAnimationFrame]"
proof -
  let ?s = "run flightToFar initialApp"
  note f = flying_far
  have t: "lastTimeRef ?s = Some (Fin 0)" and p: "isPlaying (ref_santa (stateRef ?s))"
    and g: "truthy (targetStopId (ref_santa (stateRef ?s)))"
    and fd: "find (\<lambda>st. Some (stop_id st) = targetStopId (ref_santa (stateRef ?s)))
           (ref_stops (stateRef ?s)) = Some stopFar"
    by (simp_all add: f stopFar_def)
  have pos: "currentPosition (ref_santa (stateRef ?s)) = NORTH_POLE"
    "currentPosition (santa ?s) = NORTH_POLE" "speed (ref_santa (stateRef ?s)) = Fin 1"
    by (simp_all add: f)
  have far: "isNaN (lat (coordinates stopFar)) \<or> isNaN (lng (coordinates stopFar))
       \<or> (\<not> isFinite (distanceTo (coordinates stopFar)
               (currentPosition (ref_santa (stateRef ?s))))
          \<and> isFinite (num_sub (lat (coordinates stopFar))
               (lat (currentPosition (ref_santa (stateRef ?s)))))
          \<and> isFinite (num_sub (lng (coordinates stopFar))
               (lng (currentPosition (ref_santa (stateRef ?s)))))
          \<and> stepSize (speed (ref_santa (stateRef ?s))) (num_sub (Fin 5000) (Fin 0)) \<noteq> PosInf
          \<and> isDouble (lat (currentPosition (santa ?s)))
          \<and> isDouble (lng (currentPosition (santa ?s))))"
    by (simp add: pos far_distance five_second_step)
       (simp add: stopFar_def NORTH_POLE_def num_sub_def far_difference small_integers)
  from animate_non_finite_skipped [OF t p g fd far] show ?thesis
    by (simp add: far_distance f)
qed

section \<open>Reordering the stops\<close>

text \<open>
  C6. For every list of stops and every id sequence that \<open>optimizeRoute\<close> returns, the
  reorder step of \<open>handleOptimize\<close> yields, without error, the stops found for the ids the
  list knows, in the order of the sequence: ids it does not know are dropped, every stop
  of the result is a stop of the list before the call, and when the sequence is a
  permutation of the ids of the list (which are distinct) the result is a permutation of
  the list.
\<close>

theorem handleOptimize_reorder:
  "(let ids = optimizeRoute (stops s) response;
        new = stops (handleOptimize response s)
    in map stop_id new = filter (\<lambda>i. i \<in> set (map stop_id (stops s))) ids
     \<and> set new \<subseteq> set (stops s)
     \<and> (distinct (map stop_id (stops s)) \<and> mset ids = mset (map stop_id (stops s)) \<longrightarrow>
          mset new = mset (stops s)))"
  using reorder_ids [of "stops s" "optimizeRoute (stops s) response"]
    reorder_subset [of "stops s" "optimizeRoute (stops s) response"]
    reorder_perm [of "stops s" "optimizeRoute (stops s) response"]
  by (simp add: handleOptimize_def Let_def)

text \<open>Antwerp and Oslo, with the answer Oslo, Antwerp, and an unknown id.\<close>

theorem handleOptimize_reorder_witness:
  "stops (handleOptimize (OptimizeAnswer (Some [''b'', ''a''])) (run planAntwerpOslo initialApp))
     = [stopOslo, stopAntwerp]
 \<and> mset [stopOslo, stopAntwerp] = mset (stops (run planAntwerpOslo initialApp))
 \<and> map stop_id (stops (handleOptimize (OptimizeAnswer (Some [''b'', ''zz'', ''a'']))
     (run planAntwerpOslo initialApp))) = [''b'', ''a'']"
proof -
  let ?s = "run planAntwerpOslo initialApp"
  have st: "stops ?s = [stopAntwerp, stopOslo]" by (rule planned_antwerp_oslo)
  have out: "stops (handleOptimize (OptimizeAnswer (Some [''b'', ''a''])) ?s) = [stopOslo, stopAntwerp]"
    by (simp add: st handleOptimize_def reorderStops_def stopAntwerp_def stopOslo_def)
  have "distinct (map stop_id (stops ?s))
      \<and> mset (optimizeRoute (stops ?s) (OptimizeAnswer (Some [''b'', ''a''])))
          = mset (map stop_id (stops ?s))"
    by (simp add: st stopAntwerp_def stopOslo_def)
  with out handleOptimize_reorder [of ?s "OptimizeAnswer (Some [''b'', ''a''])"]
    handleOptimize_reorder [of ?s "OptimizeAnswer (Some [''b'', ''zz'', ''a''])"]
  show ?thesis
    by (simp add: Let_def st stopAntwerp_def stopOslo_def)
qed

text \<open>
  An answer that leaves Oslo out drops the stop, and an answer that names Antwerp twice
  doubles it: the ids after the reorder are not a permutation of the ids before.
\<close>

theorem handleOptimize_not_permutation:
  "map stop_id (stops (run planAntwerpOslo initialApp)) = [''a'', ''b'']
 \<and> optimizeRoute (stops (run planAntwerpOslo initialApp)) (OptimizeAnswer (Some [''a''])) = [''a'']
 \<and> map stop_id (stops (handleOptimize (OptimizeAnswer (Some [''a'']))
      (run planAntwerpOslo initialApp))) = [''a'']
 \<and> map stop_id (stops (handleOptimize (OptimizeAnswer (Some [''a'', ''a'', ''b'']))
      (run planAntwerpOslo initialApp))) = [''a'', ''a'', ''b'']
 \<and> stops (handleOptimize (OptimizeAnswer (Some [])) (run planAntwerpOslo initialApp)) = []"
  by (simp add: planned_antwerp_oslo handleOptimize_def reorderStops_def stopAntwerp_def stopOslo_def)

section \<open>Reset\<close>

text \<open>
  C7. From every state, \<open>handleReset\<close> sets the phase to \<open>PLANNING\<close>; clears the delivered
  flag of every stop and keeps the list, with its ids, names, presents, coordinates, order
  and length; puts Santa in the initial idle state at the North Pole (not playing, no
  target, speed 1, not delivering); and clears the pending confirmation, the delivery
  image and the arrival guard.
\<close>

theorem handleReset_establishes:
  "status (handleReset s) = PLANNING
 \<and> (\<forall>st \<in> set (stops (handleReset s)). \<not> isDelivered st)
 \<and> length (stops (handleReset s)) = length (stops s)
 \<and> map stop_id (stops (handleReset s)) = map stop_id (stops s)
 \<and> map name (stops (handleReset s)) = map name (stops s)
 \<and> map present (stops (handleReset s)) = map present (stops s)
 \<and> map coordinates (stops (handleReset s)) = map coordinates (stops s)
 \<and> santa (handleReset s) =
      \<lparr>currentPosition = NORTH_POLE, targetStopId = None, isPlaying = False,
       speed = Fin 1, isDelivering = False\<rparr>
 \<and> santa (handleReset s) = santa initialApp
 \<and> pendingDeliveryStop (handleReset s) = None
 \<and> deliveryImage (handleReset s) = None
 \<and> lastArrivalStopIdRef (handleReset s) = None"
  by (simp add: handleReset_def initialApp_def initialSanta_def)

text \<open>A reset after the delivery in Antwerp.\<close>

theorem handleReset_establishes_witness:
  "map isDelivered (stops (run deliveryInAntwerp (run flightToAntwerp initialApp))) = [True]
 \<and> stops (handleReset (run deliveryInAntwerp (run flightToAntwerp initialApp))) = [stopAntwerp]
 \<and> status (handleReset (run deliveryInAntwerp (run flightToAntwerp initialApp))) = PLANNING
 \<and> santa (handleReset (run deliveryInAntwerp (run flightToAntwerp initialApp))) = initialSanta"
proof -
  let ?s = "run deliveryInAntwerp (run flightToAntwerp initialApp)"
  have "stops ?s = [stopAntwerp\<lparr>isDelivered := True\<rparr>]"
    by (simp add: deliveryInAntwerp_def example_defs)
  with handleReset_establishes [of ?s] show ?thesis
    by (simp add: handleReset_def stopAntwerp_def initialSanta_def)
qed

section \<open>Adding a stop\<close>

text \<open>
  C8. When the geocoder returns \<open>null\<close> -- as it does when the request throws and when
  the latitude or the longitude of the answer is missing, not a number or not finite --
  \<open>handleAddStop\<close> leaves the list of stops as it is, and the state at its end differs from
  the state at its start in the message alone (\<open>loading\<close>, raised during the request, is
  false again). In every state reached from the initial state, all stops have finite
  coordinates.
\<close>

theorem handleAddStop_geocode_null:
  "(geocodeLocation response = None \<longrightarrow>
      stops (handleAddStop response newId s) = stops s
    \<and> handleAddStop response newId s =
        (if locationInput s = [] \<or> presentInput s = [] then s
         else s\<lparr>loading := False, currentMessage := MsgCouldNotFind (locationInput s)\<rparr>))
 \<and> geocodeLocation GeocodeThrows = None
 \<and> (\<not> (finiteNumber (data_lat d) \<and> finiteNumber (data_lng d)) \<longrightarrow>
      geocodeLocation (GeocodeAnswer d) = None)
 \<and> (\<forall>st \<in> set (stops (run es initialApp)). finiteStop st)"
proof -
  have "\<forall>st \<in> set (stops (run es initialApp)). finiteStop st"
    by (rule run_finite) (simp add: initialApp_def)
  then show ?thesis
    by (simp add: handleAddStop_def Let_def)
qed

text \<open>
  The user asks for Atlantis and the answer has an infinite latitude: nothing is added to
  Antwerp and Oslo, and only the message changes.
\<close>

theorem handleAddStop_geocode_null_witness:
  "geocodeLocation (GeocodeAnswer \<lparr>data_found = JBool True, data_lat = JNumber PosInf,
      data_lng = JNumber (Fin 0), data_formattedName = ''Atlantis''\<rparr>) = None
 \<and> handleAddStop (GeocodeAnswer \<lparr>data_found = JBool True, data_lat = JNumber PosInf,
      data_lng = JNumber (Fin 0), data_formattedName = ''Atlantis''\<rparr>) ''c''
      (run (planAntwerpOslo @ [SetLocationInput ''Atlantis'', SetPresentInput ''Trident''])
         initialApp)
   = (run (planAntwerpOslo @ [SetLocationInput ''Atlantis'', SetPresentInput ''Trident''])
         initialApp) \<lparr>currentMessage := MsgCouldNotFind ''Atlantis''\<rparr>
 \<and> list_all finiteStop (stops (run planAntwerpOslo initialApp))"
proof -
  let ?d = "\<lparr>data_found = JBool True, data_lat = JNumber PosInf,
      data_lng = JNumber (Fin 0), data_formattedName = ''Atlantis''\<rparr>"
  let ?s = "run (planAntwerpOslo @ [SetLocationInput ''Atlantis'', SetPresentInput ''Trident''])
         initialApp"
  have null: "geocodeLocation (GeocodeAnswer ?d) = None" by simp
  have "locationInput ?s = ''Atlantis'' \<and> presentInput ?s = ''Trident'' \<and> \<not> loading ?s"
    by (simp add: example_defs)
  with null handleAddStop_geocode_null [of "GeocodeAnswer ?d" "''c''" ?s ?d planAntwerpOslo]
  show ?thesis
    by (simp add: list_all_iff)
qed

section \<open>Starting the run\<close>

text \<open>
  C9. The start of a run is valid only from \<open>PLANNING\<close> with a stop in the registry.
  \<open>handleStartDelivery\<close> does nothing with an empty registry, and when it fires it sets the
  phase to \<open>DELIVERING\<close>, the target to the first stop, \<open>isPlaying\<close> to true, and clears the
  arrival guard, the pending confirmation and the delivery image. It is bound to the Start
  button alone, which exists only in \<open>PLANNING\<close>: from any other phase a click performs no
  transition, and while planning with a stop and nothing loading it runs the handler.
\<close>

theorem handleStartDelivery_transition:
  "(length (stops s) = 0 \<longrightarrow> handleStartDelivery s = s \<and> clickStartDelivery s = s)
 \<and> (length (stops s) \<noteq> 0 \<longrightarrow>
      status (handleStartDelivery s) = DELIVERING
    \<and> targetStopId (santa (handleStartDelivery s)) = Some (stop_id (hd (stops s)))
    \<and> isPlaying (santa (handleStartDelivery s))
    \<and> lastArrivalStopIdRef (handleStartDelivery s) = None
    \<and> pendingDeliveryStop (handleStartDelivery s) = None
    \<and> deliveryImage (handleStartDelivery s) = None)
 \<and> (status s \<noteq> PLANNING \<longrightarrow> clickStartDelivery s = s)
 \<and> (status s = PLANNING \<and> length (stops s) \<noteq> 0 \<and> \<not> loading s \<longrightarrow>
      clickStartDelivery s = handleStartDelivery s)"
  by (cases "stops s") (simp_all add: handleStartDelivery_def clickStartDelivery_def)

text \<open>With no stop; with Antwerp planned; and after the run has finished.\<close>

theorem handleStartDelivery_transition_witness:
  "clickStartDelivery initialApp = initialApp
 \<and> status (clickStartDelivery (run planAntwerp initialApp)) = DELIVERING
 \<and> targetStopId (santa (clickStartDelivery (run planAntwerp initialApp))) = Some ''a''
 \<and> isPlaying (santa (clickStartDelivery (run planAntwerp initialApp)))
 \<and> status (run skippedAntwerp initialApp) = FINISHED
 \<and> clickStartDelivery (run skippedAntwerp initialApp) = run skippedAntwerp initialApp"
proof -
  have fin: "status (run skippedAntwerp initialApp) = FINISHED"
    by (simp add: skippedAntwerp_def example_defs)
  have "stops initialApp = []" by (simp add: initialApp_def)
  with fin planned_antwerp handleStartDelivery_transition [of initialApp]
    handleStartDelivery_transition [of "run planAntwerp initialApp"]
    handleStartDelivery_transition [of "run skippedAntwerp initialApp"]
  show ?thesis by (simp add: stopAntwerp_def)
qed

end
